theory Spec2Isabelle
  imports Complex_Main
begin

section \<open>Common data\<close>

text \<open>
  Go strings and byte slices are byte sequences; both are modelled as \<open>string\<close>
  (a list of 8-bit characters).  Go errors are values of the type \<open>error\<close>:
  \<open>EOF\<close> is \<open>io.EOF\<close>, \<open>ErrNotFound\<close> is the suppliers package's own not-found
  error, \<open>DsErrNotFound\<close> is \<open>datastore.ErrNotFound\<close>, and every other error is
  \<open>Err\<close> with its message.
\<close>

type_synonym bytes = string

datatype error = EOF | ErrNotFound | DsErrNotFound | Err string

section \<open>Ingest verifier (cmd/provider/verify_ingest.go)\<close>

subsection \<open>Sample selection\<close>

text \<open>
  \<open>math/rand\<close> is an external library: a generator is created from a seed by
  \<open>rand.New(rand.NewSource(seed))\<close> and \<open>Float64\<close> draws the next number and
  advances the generator.  Both are parameters of the model.  The finite,
  non-NaN values of \<open>float64\<close> are rationals and \<open>\<le>\<close>, \<open>>\<close> and \<open>==\<close> on them
  are the comparisons of the rationals.
\<close>

record 'g rand =
  NewSource :: "int \<Rightarrow> 'g"
  Float64 :: "'g \<Rightarrow> rat \<times> 'g"

text \<open>
  The closure stored in the package variable \<open>include\<close>: either the constant
  \<open>true\<close>, or the closure over the generator \<open>rng\<close> and \<open>samplingProb\<close>.
\<close>

datatype 'g sampleSelector = IncludeAll | IncludeRng 'g rat

fun include_call :: "'g rand \<Rightarrow> 'g sampleSelector \<Rightarrow> bool \<times> 'g sampleSelector" where
  "include_call R IncludeAll = (True, IncludeAll)"
| "include_call R (IncludeRng rng p) =
     (case Float64 R rng of (x, rng') \<Rightarrow> (x \<le> p, IncludeRng rng' p))"

text \<open>
  \<open>beforeVerifyIngest\<close> reads the package variables \<open>samplingProb\<close> and \<open>rngSeed\<close>
  and the clock (\<open>now\<close> is \<open>time.Now().UnixNano()\<close>); it returns the exit error
  or the updated \<open>rngSeed\<close> together with the selector it stored in \<open>include\<close>.
\<close>

definition beforeVerifyIngest ::
  "'g rand \<Rightarrow> rat \<Rightarrow> int \<Rightarrow> int \<Rightarrow> error + (int \<times> 'g sampleSelector)" where
  "beforeVerifyIngest R samplingProb rngSeed now =
     (if samplingProb \<le> 0 \<or> samplingProb > 1 then
        Inl (Err ''Sampling probability must be larger than 0.0 and smaller or equal to 1.0.'')
      else if samplingProb = 1 then Inr (rngSeed, IncludeAll)
      else
        let rngSeed' = (if rngSeed = 0 then now else rngSeed)
        in Inr (rngSeed', IncludeRng (NewSource R rngSeed') samplingProb))"

subsection \<open>The remote lookup's data\<close>

type_synonym multihash = bytes

text \<open>
  Of a provider result the verifier reads \<open>p.Provider.ID.String()\<close> only.
\<close>

record ProviderResult =
  Provider_ID :: string

record MultihashResult =
  Multihash :: multihash
  ProviderResults :: "ProviderResult list"

record FindResponse =
  MultihashResults :: "MultihashResult list"

text \<open>
  An iterable index: \<open>ForEach\<close> visits \<open>entries\<close> in order and then returns
  \<open>failure\<close>, the error of the index itself, if any.
\<close>

record IterableIndex =
  entries :: "multihash list"
  failure :: "error option"

record verifyIngestResult =
  total :: int
  providerMissmatch :: int
  present :: int
  absent :: int
  err :: int

definition passedVerification :: "verifyIngestResult \<Rightarrow> bool" where
  "passedVerification r = (present r = total r)"

subsection \<open>verifyIngestFromCarIterableIndex\<close>

text \<open>The callback of \<open>idx.ForEach\<close>: one call of \<open>include\<close> per entry.\<close>

fun retain ::
  "'g rand \<Rightarrow> multihash list \<Rightarrow> 'g sampleSelector \<Rightarrow> multihash list
     \<Rightarrow> multihash list \<times> 'g sampleSelector" where
  "retain R [] sel mhs = (mhs, sel)"
| "retain R (mh # rest) sel mhs =
     (case include_call R sel of
        (True, sel') \<Rightarrow> retain R rest sel' (mhs @ [mh])
      | (False, sel') \<Rightarrow> retain R rest sel' mhs)"

text \<open>\<open>mhLookup\<close>: a later result for the same multihash replaces an earlier one.\<close>

fun mhLookup_of ::
  "MultihashResult list \<Rightarrow> (multihash \<rightharpoonup> MultihashResult) \<Rightarrow> (multihash \<rightharpoonup> MultihashResult)" where
  "mhLookup_of [] m = m"
| "mhLookup_of (mr # mrs) m = mhLookup_of mrs (m(Multihash mr \<mapsto> mr))"

text \<open>The inner loop over the provider results, with its \<open>break\<close>.\<close>

fun match_provider ::
  "string \<Rightarrow> ProviderResult list \<Rightarrow> verifyIngestResult \<Rightarrow> verifyIngestResult \<times> bool" where
  "match_provider provId [] r = (r, False)"
| "match_provider provId (p # ps) r =
     (if Provider_ID p = provId then (r\<lparr>present := present r + 1\<rparr>, True)
      else match_provider provId ps r)"

fun classify ::
  "(multihash \<rightharpoonup> MultihashResult) \<Rightarrow> string \<Rightarrow> multihash list
     \<Rightarrow> verifyIngestResult \<Rightarrow> verifyIngestResult" where
  "classify mhLookup provId [] r = r"
| "classify mhLookup provId (mh # mhs) r =
     (case mhLookup mh of
        None \<Rightarrow> classify mhLookup provId mhs (r\<lparr>absent := absent r + 1\<rparr>)
      | Some mr \<Rightarrow>
          if length (ProviderResults mr) = 0
          then classify mhLookup provId mhs (r\<lparr>absent := absent r + 1\<rparr>)
          else
            (case match_provider provId (ProviderResults mr) r of
               (r', matchedProvider) \<Rightarrow>
                 if \<not> matchedProvider
                 then classify mhLookup provId mhs
                        (r'\<lparr>providerMissmatch := providerMissmatch r' + 1\<rparr>)
                 else classify mhLookup provId mhs r'))"

definition result0 :: verifyIngestResult where
  "result0 = \<lparr>total = 0, providerMissmatch = 0, present = 0, absent = 0, err = 0\<rparr>"

text \<open>
  \<open>finder\<close> is \<open>finder.FindBatch\<close>, the one batched remote lookup; \<open>provId\<close> and
  the selector are the package variables the function reads.
\<close>

definition verifyIngestFromCarIterableIndex ::
  "'g rand \<Rightarrow> 'g sampleSelector \<Rightarrow> string \<Rightarrow> (multihash list \<Rightarrow> error + FindResponse)
     \<Rightarrow> IterableIndex \<Rightarrow> error + verifyIngestResult" where
  "verifyIngestFromCarIterableIndex R sel provId finder idx =
     (let mhs = fst (retain R (entries idx) sel []) in
      case failure idx of
        Some e \<Rightarrow> Inl e
      | None \<Rightarrow>
          let mhsCount = int (length mhs);
              result = result0\<lparr>total := mhsCount\<rparr>
          in case finder mhs of
               Inl e \<Rightarrow> Inr (result\<lparr>err := mhsCount\<rparr>)
             | Inr response \<Rightarrow>
                 if length (MultihashResults response) = 0
                 then Inr (result\<lparr>absent := mhsCount\<rparr>)
                 else Inr (classify (mhLookup_of (MultihashResults response) Map.empty)
                             provId mhs result))"

text \<open>The identifiers a run retains, in order.\<close>

definition retained :: "'g rand \<Rightarrow> 'g sampleSelector \<Rightarrow> IterableIndex \<Rightarrow> multihash list" where
  "retained R sel idx = fst (retain R (entries idx) sel [])"

subsection \<open>printAndExit\<close>

text \<open>
  What \<open>printAndExit\<close> writes: the five counts in the order of the report, the
  banner, and the exit code carried by the \<open>cli.Exit\<close> value it returns.
\<close>

record report =
  failed_to_verify :: int
  unindexed :: int
  indexed_with_another :: int
  indexed_with_expected :: int
  total_checked :: int
  banner :: string
  exit_code :: int

definition printAndExit :: "verifyIngestResult \<Rightarrow> report" where
  "printAndExit r =
     \<lparr>failed_to_verify = err r, unindexed = absent r,
      indexed_with_another = providerMissmatch r, indexed_with_expected = present r,
      total_checked = total r,
      banner = (if passedVerification r then ''Passed verification check.''
                else ''Failed verification check.''),
      exit_code = (if passedVerification r then 0 else 1)\<rparr>"

text \<open>
  The tail shared by \<open>doVerifyIngestFromCar\<close> and \<open>doVerifyIngestFromCarIndex\<close>
  once the index and the finder exist: an error of the verifier is returned, a
  result is printed.
\<close>

definition doVerifyIngest ::
  "'g rand \<Rightarrow> 'g sampleSelector \<Rightarrow> string \<Rightarrow> (multihash list \<Rightarrow> error + FindResponse)
     \<Rightarrow> IterableIndex \<Rightarrow> error + report" where
  "doVerifyIngest R sel provId finder idx =
     (case verifyIngestFromCarIterableIndex R sel provId finder idx of
        Inl e \<Rightarrow> Inl e
      | Inr result \<Rightarrow> Inr (printAndExit result))"

subsection \<open>A run of the sampling\<close>

text \<open>
  The subset one run of the command retains: \<open>beforeVerifyIngest\<close> builds the
  selector from the flags and the clock, \<open>ForEach\<close> applies it to the entries.
\<close>

definition sampled_subset ::
  "'g rand \<Rightarrow> rat \<Rightarrow> int \<Rightarrow> int \<Rightarrow> IterableIndex \<Rightarrow> error + multihash list" where
  "sampled_subset R samplingProb rngSeed now idx =
     (case beforeVerifyIngest R samplingProb rngSeed now of
        Inl e \<Rightarrow> Inl e
      | Inr (seed, sel) \<Rightarrow> Inr (retained R sel idx))"

subsection \<open>Example inputs\<close>

text \<open>
  A small generator to run the model on: its state is a counter started at the seed,
  and it draws the quarters \<open>0, 1/4, 2/4, 3/4\<close> in turn.
\<close>

definition counter_rand :: "int rand" where
  "counter_rand = \<lparr>NewSource = (\<lambda>seed. seed), Float64 = (\<lambda>g. (of_int (g mod 4) / 4, g + 1))\<rparr>"

definition three_entries :: IterableIndex where
  "three_entries = \<lparr>entries = [''mh-a'', ''mh-b'', ''mh-c''], failure = None\<rparr>"

text \<open>
  A lookup that knows \<open>mh-a\<close> with the provider \<open>P\<close> and \<open>mh-b\<close> with the provider
  \<open>Q\<close> only, and a lookup that fails.
\<close>

definition finder_ab :: "multihash list \<Rightarrow> error + FindResponse" where
  "finder_ab mhs = Inr \<lparr>MultihashResults =
     [\<lparr>Multihash = ''mh-a'',
        ProviderResults = [\<lparr>Provider_ID = ''P''\<rparr>]\<rparr>,
      \<lparr>Multihash = ''mh-b'',
        ProviderResults = [\<lparr>Provider_ID = ''Q''\<rparr>]\<rparr>]\<rparr>"

definition finder_down :: "multihash list \<Rightarrow> error + FindResponse" where
  "finder_down mhs = Inl (Err ''connection refused'')"

section \<open>Streaming adapter (\<open>ToCidCallback\<close> and \<open>toChan\<close>)\<close>

text \<open>
  A content identifier is the binary string go-cid's \<open>Cid\<close> struct holds;
  \<open>cid.Undef\<close>, the zero value, is the empty string, and \<open>Bytes\<close> returns the
  string as it is.
\<close>

type_synonym cid = bytes

definition Undef :: cid where
  "Undef = []"

definition Bytes :: "cid \<Rightarrow> bytes" where
  "Bytes c = c"

text \<open>
  A \<open>CidIterator\<close> is the list of the results its coming \<open>Next\<close> calls return, a
  pair of a value and an optional error each; once the list is used up, \<open>Next\<close>
  returns \<open>(cid.Undef, io.EOF)\<close>.
\<close>

type_synonym CidIterator = "(cid \<times> error option) list"

fun Next :: "CidIterator \<Rightarrow> (cid \<times> error option) \<times> CidIterator" where
  "Next [] = ((Undef, Some EOF), [])"
| "Next (r # rs) = (r, rs)"

subsection \<open>Channels\<close>

text \<open>
  A buffered Go channel: its capacity, the values waiting in it and whether it is
  closed.  A channel variable is \<open>None\<close> when it is \<open>nil\<close>.
\<close>

record 'a chan =
  cap :: nat
  buf :: "'a list"
  closed :: bool

definition make_chan :: "nat \<Rightarrow> 'a chan" where
  "make_chan n = \<lparr>cap = n, buf = [], closed = False\<rparr>"

text \<open>
  A send that finds room in the buffer returns the channel with the value queued;
  \<open>None\<close> is the send that cannot proceed (it blocks on a full buffer and panics on
  a closed channel).
\<close>

definition chan_send :: "'a chan \<Rightarrow> 'a \<Rightarrow> 'a chan option" where
  "chan_send ch v =
     (if \<not> closed ch \<and> length (buf ch) < cap ch then Some (ch\<lparr>buf := buf ch @ [v]\<rparr>)
      else None)"

definition chan_close :: "'a chan \<Rightarrow> 'a chan" where
  "chan_close ch = ch\<lparr>closed := True\<rparr>"

text \<open>
  A receive with no sender around: a waiting value is taken; a closed, drained
  channel yields the zero value at once; an open, empty channel blocks until someone
  sends; a \<open>nil\<close> channel blocks forever.
\<close>

datatype 'a recv = Received 'a "'a chan" | ClosedAndDrained | BlocksUntilSend | BlocksForever

fun chan_recv :: "'a chan option \<Rightarrow> 'a recv" where
  "chan_recv None = BlocksForever"
| "chan_recv (Some ch) =
     (case buf ch of
        v # vs \<Rightarrow> Received v (ch\<lparr>buf := vs\<rparr>)
      | [] \<Rightarrow> if closed ch then ClosedAndDrained else BlocksUntilSend)"

subsection \<open>toChan\<close>

text \<open>
  The goroutine \<open>toChan\<close> starts, as the channel operations it performs in program
  order (each send waits until its capacity-1 channel has room): the loop over
  \<open>ci.Next()\<close>, then the deferred closes.
\<close>

datatype event = SendCid cid | SendErr error | CloseCid | CloseErr

fun toChan_worker :: "CidIterator \<Rightarrow> event list" where
  "toChan_worker [] = [CloseCid, CloseErr]"
| "toChan_worker ((c, e) # rs) =
     (if e = Some EOF then [CloseCid, CloseErr]
      else (case e of Some er \<Rightarrow> [SendErr er] | None \<Rightarrow> []) @ SendCid c # toChan_worker rs)"

text \<open>
  The same goroutine run on its two channels while nobody receives: a send that finds
  its buffer full leaves the worker blocked in it.  The result is the two channels
  and whether the worker has finished.
\<close>

fun toChan_unattended ::
  "CidIterator \<Rightarrow> cid chan \<Rightarrow> error chan \<Rightarrow> cid chan \<times> error chan \<times> bool" where
  "toChan_unattended [] cidCh errCh = (chan_close cidCh, chan_close errCh, True)"
| "toChan_unattended ((c, e) # rs) cidCh errCh =
     (if e = Some EOF then (chan_close cidCh, chan_close errCh, True)
      else
        (case (case e of Some er \<Rightarrow> chan_send errCh er | None \<Rightarrow> Some errCh) of
           None \<Rightarrow> (cidCh, errCh, False)
         | Some errCh' \<Rightarrow>
             (case chan_send cidCh c of
                None \<Rightarrow> (cidCh, errCh', False)
              | Some cidCh' \<Rightarrow> toChan_unattended rs cidCh' errCh')))"

text \<open>
  What a callback returns: the two channels and, in \<open>goroutine\<close>, the iterator the
  worker it started drains (\<open>None\<close> when it started none).
\<close>

record CidCallbackResult =
  cidChan :: "cid chan option"
  errChan :: "error chan option"
  goroutine :: "CidIterator option"

definition toChan :: "CidIterator \<Rightarrow> CidCallbackResult" where
  "toChan ci = \<lparr>cidChan = Some (make_chan 1), errChan = Some (make_chan 1), goroutine = Some ci\<rparr>"

subsection \<open>ToCidCallback\<close>

text \<open>
  \<open>cidIterSup\<close> is the \<open>Supply\<close> method of the supplier.  The result is \<open>None\<close> when
  the callback never returns, which is what a blocked send would mean.  The deferred
  \<open>close(errChan)\<close> runs before the caller sees the channel.
\<close>

definition ToCidCallback ::
  "('key \<Rightarrow> error + CidIterator) \<Rightarrow> 'key \<Rightarrow> CidCallbackResult option" where
  "ToCidCallback cidIterSup key =
     (case cidIterSup key of
        Inl er \<Rightarrow>
          (case chan_send (make_chan 1) er of
             None \<Rightarrow> None
           | Some errChan' \<Rightarrow>
               Some \<lparr>cidChan = None, errChan = Some (chan_close errChan'), goroutine = None\<rparr>)
      | Inr ci \<Rightarrow> Some (toChan ci))"

subsection \<open>Example inputs\<close>

text \<open>
  An iterator whose first \<open>Next\<close> fails with an error other than \<open>io.EOF\<close> and whose
  second \<open>Next\<close> returns a value, and a supplier that knows no key.
\<close>

definition failing_iterator :: CidIterator where
  "failing_iterator = [(Undef, Some (Err ''unexpected EOF'')), (''cid-1'', None)]"

definition empty_supplier :: "cid \<Rightarrow> error + CidIterator" where
  "empty_supplier key = Inl ErrNotFound"

section \<open>Extended providers: the advertisement builder\<close>

text \<open>
  Of the package \<open>engine/xproviders\<close> only the tests are at hand
  (\<open>engine/xproviders/xproviders_test.go\<close>); the builder is modelled from the
  specification, sections 3 and 4.1, with the names the tests use.
\<close>

type_synonym PrivKey = bytes

text \<open>
  Modelled from the spec: \<open>ep.Info\<close> (its declaration is missing), an extended
  provider as it is supplied to the builder, with the fields
  \<open>ep.NewInfo(id, priv, metadata, addrs)\<close> takes in the tests.
\<close>

record Info =
  ID :: string
  Priv :: PrivKey
  Metadata :: bytes
  Addrs :: "string list"

text \<open>
  Modelled from the spec: the types of section 3 (their declarations are missing): an
  entry of \<open>ExtendedProvider.Providers\<close> (ExtendedProviderInfo), ExtendedProvider and
  Advertisement.  The fields of an entry carry the suffix \<open>_p\<close> and three fields of
  the advertisement the suffix \<open>_a\<close>, to keep them apart.
\<close>

record Provider =
  ID_p :: string
  Addresses_p :: "string list"
  Metadata_p :: bytes
  Signature_p :: bytes

record ExtendedProvider =
  Providers :: "Provider list"
  Override :: bool

record Advertisement =
  PreviousID :: "cid option"
  Provider_a :: string
  Addresses :: "string list"
  Entries :: "cid option"
  ContextID :: bytes
  Metadata_a :: bytes
  IsRm :: bool
  Signature :: bytes
  ExtendedProvider_a :: "ExtendedProvider option"

text \<open>
  The cryptography is outside the repository: whether a string parses as a peer
  identity, the signature of an extended provider over (ID, ContextID, Metadata),
  and the signature of the advertisement over its fields.
\<close>

record crypto =
  valid_peer_id :: "string \<Rightarrow> bool"
  sign_provider :: "PrivKey \<Rightarrow> string \<Rightarrow> bytes \<Rightarrow> bytes \<Rightarrow> bytes"
  sign_ad :: "PrivKey \<Rightarrow> Advertisement \<Rightarrow> bytes"

text \<open>
  Modelled from the spec: the builder of section 4.1 (\<open>AdBuilder\<close> and its methods are
  missing): what it is constructed with, and what its chained configuration calls
  accumulate, with the names the tests call.
\<close>

record AdBuilder =
  providerID :: string
  privKey :: PrivKey
  addrs :: "string list"
  providers :: "Info list"
  contextID :: bytes
  metadata :: bytes
  override :: bool

definition NewAdBuilder :: "string \<Rightarrow> PrivKey \<Rightarrow> string list \<Rightarrow> AdBuilder" where
  "NewAdBuilder pid priv as =
     \<lparr>providerID = pid, privKey = priv, addrs = as, providers = [], contextID = [],
      metadata = [], override = False\<rparr>"

definition WithExtendedProviders :: "Info list \<Rightarrow> AdBuilder \<Rightarrow> AdBuilder" where
  "WithExtendedProviders eps b = b\<lparr>providers := providers b @ eps\<rparr>"

definition WithOverride :: "bool \<Rightarrow> AdBuilder \<Rightarrow> AdBuilder" where
  "WithOverride v b = b\<lparr>override := v\<rparr>"

definition WithContextID :: "bytes \<Rightarrow> AdBuilder \<Rightarrow> AdBuilder" where
  "WithContextID c b = b\<lparr>contextID := c\<rparr>"

definition WithMetadata :: "bytes \<Rightarrow> AdBuilder \<Rightarrow> AdBuilder" where
  "WithMetadata m b = b\<lparr>metadata := m\<rparr>"

text \<open>
  Modelled from the spec: step 2 of the build algorithm of section 4.1 (the function
  \<open>BuildAndSign\<close> is missing).  For every supplied entry: fail if its addresses are
  empty, fail if its identity does not parse.  The messages are those of the tests.
\<close>

fun validate_infos :: "crypto \<Rightarrow> Info list \<Rightarrow> error option" where
  "validate_infos C [] = None"
| "validate_infos C (i # is) =
     (if Addrs i = [] then Some (Err ''addresses of an extended provider can not be empty'')
      else if \<not> valid_peer_id C (ID i) then Some (Err ''invalid extended provider peer id'')
      else validate_infos C is)"

text \<open>
  Modelled from the spec: step 3 of section 4.1 (\<open>BuildAndSign\<close> is missing).
  Deduplicate the supplied list by identity, keeping the first occurrence of each
  and their order; \<open>seen\<close> holds the identities already kept.
\<close>

fun dedup_infos :: "string list \<Rightarrow> Info list \<Rightarrow> Info list" where
  "dedup_infos seen [] = []"
| "dedup_infos seen (i # is) =
     (if ID i \<in> set seen then dedup_infos seen is
      else i # dedup_infos (ID i # seen) is)"

text \<open>The implicit entry: the main provider's own addresses, metadata and key.\<close>

definition main_info :: "AdBuilder \<Rightarrow> Info" where
  "main_info b = \<lparr>ID = providerID b, Priv = privKey b, Metadata = metadata b, Addrs = addrs b\<rparr>"

text \<open>
  Modelled from the spec: step 4 of section 4.1 (\<open>BuildAndSign\<close> is missing).  If
  Override is false and the main provider's identity is not in the deduplicated list,
  the implicit entry is appended last; if it is in the list, the supplied entry is
  left as it is; if Override is true, nothing is added.
\<close>

definition add_main_provider :: "AdBuilder \<Rightarrow> Info list \<Rightarrow> Info list" where
  "add_main_provider b eps =
     (if \<not> override b \<and> providerID b \<notin> set (map ID eps) then eps @ [main_info b] else eps)"

text \<open>
  Modelled from the spec: step 5 of section 4.1 (\<open>BuildAndSign\<close> is missing).  Each
  entry is signed over (ID, ContextID, Metadata) with its own key.
\<close>

definition sign_info :: "crypto \<Rightarrow> bytes \<Rightarrow> Info \<Rightarrow> Provider" where
  "sign_info C ctx i =
     \<lparr>ID_p = ID i, Addresses_p = Addrs i, Metadata_p = Metadata i,
      Signature_p = sign_provider C (Priv i) (ID i) ctx (Metadata i)\<rparr>"

text \<open>
  Modelled from the spec: the build algorithm of section 4.1, steps 1 to 6
  (\<open>BuildAndSign\<close> of \<open>engine/xproviders\<close> is missing).  The built advertisement
  has no previous link, the sentinel ``no entries'' (\<open>None\<close>) and is not a removal.
\<close>

definition BuildAndSign :: "crypto \<Rightarrow> AdBuilder \<Rightarrow> error + Advertisement" where
  "BuildAndSign C b =
     (if override b \<and> contextID b = [] then Inl (Err ''override is true for empty context'')
      else case validate_infos C (providers b) of
        Some e \<Rightarrow> Inl e
      | None \<Rightarrow>
          let eps = add_main_provider b (dedup_infos [] (providers b));
              ad = \<lparr>PreviousID = None, Provider_a = providerID b, Addresses = addrs b,
                    Entries = None, ContextID = contextID b, Metadata_a = metadata b,
                    IsRm = False, Signature = [],
                    ExtendedProvider_a =
                      Some \<lparr>Providers = map (sign_info C (contextID b)) eps,
                            Override = override b\<rparr>\<rparr>
          in Inr (ad\<lparr>Signature := sign_ad C (privKey b) ad\<rparr>))"

text \<open>The built list, the identities in it, and the identities supplied to the builder.\<close>

definition built_providers :: "Advertisement \<Rightarrow> Provider list" where
  "built_providers ad = (case ExtendedProvider_a ad of None \<Rightarrow> [] | Some x \<Rightarrow> Providers x)"

definition built_ids :: "Advertisement \<Rightarrow> string list" where
  "built_ids ad = map ID_p (built_providers ad)"

definition supplied_ids :: "AdBuilder \<Rightarrow> string list" where
  "supplied_ids b = map ID (providers b)"

subsection \<open>Example inputs\<close>

text \<open>
  A stand-in for the cryptography: every non-empty string other than \<open>invalid\<close> is
  an identity, and a signature is the key followed by what is signed.  Three builders
  with Override true and a context: one with two extended providers, one with none,
  and one to which the main provider itself is supplied beside another.
\<close>

definition toy_crypto :: crypto where
  "toy_crypto =
     \<lparr>valid_peer_id = (\<lambda>s. s \<noteq> [] \<and> s \<noteq> ''invalid''),
      sign_provider = (\<lambda>k i c m. k @ i @ c @ m),
      sign_ad = (\<lambda>k ad. k @ Provider_a ad @ ContextID ad @ Metadata_a ad)\<rparr>"

definition ep1 :: Info where
  "ep1 = \<lparr>ID = ''peer-1'', Priv = ''k1'', Metadata = ''thisismeta'', Addrs = [''/ip4/1.1.1.1/tcp/1'']\<rparr>"

definition ep2 :: Info where
  "ep2 = \<lparr>ID = ''peer-2'', Priv = ''k2'', Metadata = ''thisismeta'', Addrs = [''/ip4/2.2.2.2/tcp/2'']\<rparr>"

definition test_publish_builder :: AdBuilder where
  "test_publish_builder =
     WithMetadata ''thisismeta'' (WithContextID ''test-context'' (WithOverride True
       (WithExtendedProviders [ep1, ep2]
          (NewAdBuilder ''peer-main'' ''k0'' [''/ip4/9.9.9.9/tcp/9'', ''/ip4/9.9.9.8/tcp/9'']))))"

definition no_others_builder :: AdBuilder where
  "no_others_builder =
     WithMetadata ''thisismeta'' (WithContextID ''test-context'' (WithOverride True
       (NewAdBuilder ''peer-main'' ''k0'' [''/ip4/9.9.9.9/tcp/9'', ''/ip4/9.9.9.8/tcp/9''])))"

definition main_info_supplied :: Info where
  "main_info_supplied =
     \<lparr>ID = ''peer-main'', Priv = ''k0'', Metadata = ''own-meta'', Addrs = [''/ip4/7.7.7.7/tcp/7'']\<rparr>"

definition main_listed_builder :: AdBuilder where
  "main_listed_builder =
     WithMetadata ''thisismeta'' (WithContextID ''test-context'' (WithOverride True
       (WithExtendedProviders [main_info_supplied, ep1]
          (NewAdBuilder ''peer-main'' ''k0'' [''/ip4/9.9.9.9/tcp/9'', ''/ip4/9.9.9.8/tcp/9'']))))"

section \<open>CAR supplier (internal/suppliers/car_supplier.go)\<close>

subsection \<open>Library functions: cleaning a path\<close>

text \<open>
  \<open>filepath.Clean\<close> on a system whose separator is the slash, which is
  \<open>path.Clean\<close> of the Go standard library.  The path is split at its slashes and
  the elements are processed left to right onto a stack (top first): an empty
  element and \<open>.\<close> are dropped; \<open>..\<close> removes the element on top, and where there is
  none to remove it is dropped in a rooted path and kept in a relative one; any other
  element is pushed.  The result is the elements joined by slashes, after the root
  slash in a rooted path, and \<open>.\<close> when nothing is left of a relative one.
\<close>

fun split_slash :: "string \<Rightarrow> string list" where
  "split_slash [] = [[]]"
| "split_slash (c # cs) =
     (if c = CHR ''/'' then [] # split_slash cs
      else (case split_slash cs of [] \<Rightarrow> [[c]] | e # es \<Rightarrow> (c # e) # es))"

fun join_slash :: "string list \<Rightarrow> string" where
  "join_slash [] = []"
| "join_slash [e] = e"
| "join_slash (e # es) = e @ CHR ''/'' # join_slash es"

fun clean_step :: "bool \<Rightarrow> string list \<Rightarrow> string \<Rightarrow> string list" where
  "clean_step rooted out e =
     (if e = [] \<or> e = ''.'' then out
      else if e = ''..'' then
        (case out of
           [] \<Rightarrow> if rooted then [] else [''..'']
         | t # ts \<Rightarrow> if t = ''..'' then (if rooted then out else ''..'' # out) else ts)
      else e # out)"

definition Clean :: "string \<Rightarrow> string" where
  "Clean path =
     (if path = [] then ''.''
      else
        let rooted = (hd path = CHR ''/'');
            out = join_slash (rev (foldl (clean_step rooted) [] (split_slash path)))
        in if rooted then CHR ''/'' # out
           else if out = [] then ''.'' else out)"

text \<open>
  The invariant of the stack of \<open>Clean\<close>, top first: every element on it is a real
  path element (not empty, not \<open>.\<close>, not \<open>..\<close>, without a slash) or \<open>..\<close>; below a
  \<open>..\<close> there are only \<open>..\<close>; and the stack of a rooted path holds no \<open>..\<close>.
\<close>

definition real_elem :: "string \<Rightarrow> bool" where
  "real_elem e \<longleftrightarrow> e \<noteq> [] \<and> e \<noteq> ''.'' \<and> e \<noteq> ''..'' \<and> CHR ''/'' \<notin> set e"

fun stack_ok :: "bool \<Rightarrow> string list \<Rightarrow> bool" where
  "stack_ok rooted [] = True"
| "stack_ok rooted (t # ts) =
     (if t = ''..'' then \<not> rooted \<and> (\<forall>x\<in>set ts. x = ''..'') else real_elem t \<and> stack_ok rooted ts)"

subsection \<open>Library functions: hashing and encoding\<close>

text \<open>
  \<open>sha256.New().Sum(b)\<close>: \<open>Sum\<close> appends the digest of what was written to the hash
  so far to \<open>b\<close> and returns the result.  Nothing is written to a hash that
  \<open>sha256.New()\<close> just made, so the digest is that of the empty message, the
  constant below.
\<close>

definition sha256_empty :: bytes where
  "sha256_empty =
     [CHR 0xE3, CHR 0xB0, CHR 0xC4, CHR 0x42, CHR 0x98, CHR 0xFC, CHR 0x1C, CHR 0x14,
      CHR 0x9A, CHR 0xFB, CHR 0xF4, CHR 0xC8, CHR 0x99, CHR 0x6F, CHR 0xB9, CHR 0x24,
      CHR 0x27, CHR 0xAE, CHR 0x41, CHR 0xE4, CHR 0x64, CHR 0x9B, CHR 0x93, CHR 0x4C,
      CHR 0xA4, CHR 0x95, CHR 0x99, CHR 0x1B, CHR 0x78, CHR 0x52, CHR 0xB8, CHR 0x55]"

definition sha256_New_Sum :: "bytes \<Rightarrow> bytes" where
  "sha256_New_Sum b = b @ sha256_empty"

text \<open>\<open>base64.StdEncoding.EncodeToString\<close>: three bytes give four characters, with padding.\<close>

definition b64_alphabet :: string where
  "b64_alphabet = ''ABCDEFGHIJKLMNOPQRSTUVWXYZabcdefghijklmnopqrstuvwxyz0123456789+/''"

definition b64_char :: "nat \<Rightarrow> char" where
  "b64_char n = b64_alphabet ! (n mod 64)"

fun EncodeToString :: "bytes \<Rightarrow> string" where
  "EncodeToString [] = []"
| "EncodeToString [a] =
     (let x = (of_char a :: nat)
      in [b64_char (x div 4), b64_char ((x mod 4) * 16), CHR ''='', CHR ''=''])"
| "EncodeToString [a, b] =
     (let x = (of_char a :: nat); y = (of_char b :: nat)
      in [b64_char (x div 4), b64_char ((x mod 4) * 16 + y div 16),
          b64_char ((y mod 16) * 4), CHR ''=''])"
| "EncodeToString (a # b # c # rest) =
     (let x = (of_char a :: nat); y = (of_char b :: nat); z = (of_char c :: nat)
      in [b64_char (x div 4), b64_char ((x mod 4) * 16 + y div 16),
          b64_char ((y mod 16) * 4 + z div 64), b64_char (z mod 64)] @ EncodeToString rest)"

subsection \<open>Library functions: the datastore\<close>

text \<open>
  \<open>datastore.NewKey\<close> cleans the string it is given: the empty string is the key
  \<open>/\<close>, and any other string is cleaned as a path after a slash is put in front of it
  if it has none.
\<close>

definition NewKey :: "string \<Rightarrow> string" where
  "NewKey s =
     (if s = [] then ''/''
      else if hd s = CHR ''/'' then Clean s
      else Clean (CHR ''/'' # s))"

text \<open>
  The datastore is go-datastore's \<open>MapDatastore\<close>, a map from keys to values: \<open>Put\<close>
  and \<open>Delete\<close> always succeed (\<open>Delete\<close> of a key that is not there too) and \<open>Get\<close> of
  a key that is not there fails with \<open>datastore.ErrNotFound\<close>.  Each operation returns
  its error, if any, and the store after it.
\<close>

type_synonym Datastore = "string \<rightharpoonup> bytes"

definition ds_Put :: "Datastore \<Rightarrow> string \<Rightarrow> bytes \<Rightarrow> error option \<times> Datastore" where
  "ds_Put ds key v = (None, ds(key \<mapsto> v))"

definition ds_Get :: "Datastore \<Rightarrow> string \<Rightarrow> error + bytes" where
  "ds_Get ds key = (case ds key of None \<Rightarrow> Inl DsErrNotFound | Some v \<Rightarrow> Inr v)"

definition ds_Delete :: "Datastore \<Rightarrow> string \<Rightarrow> error option \<times> Datastore" where
  "ds_Delete ds key = (None, ds(key := None))"

subsection \<open>Library functions: identifiers and CAR files\<close>

text \<open>
  What the supplier takes from go-cid, go-multihash and go-car, and from the file
  system through them: the string form of an identifier, the parser of its binary
  form, its multihash, the multihash of a byte stream (\<open>multihash.SumStream\<close> with
  SHA2-256), \<open>cid.NewCidV1\<close>, and \<open>newCarCidIterator\<close>, which opens the CAR file at a
  path and iterates over its identifiers.  They are parameters of the model.
\<close>

record libs =
  cid_String :: "cid \<Rightarrow> string"
  CidFromBytes :: "bytes \<Rightarrow> error + cid"
  cid_Hash :: "cid \<Rightarrow> bytes"
  SumStream :: "bytes \<Rightarrow> error + bytes"
  NewCidV1 :: "nat \<Rightarrow> bytes \<Rightarrow> cid"
  newCarCidIterator :: "string \<Rightarrow> error + CidIterator"

definition DagCbor :: nat where
  "DagCbor = 0x71"

subsection \<open>The supplier\<close>

definition carPathKeyPrefix :: string where
  "carPathKeyPrefix = ''car://''"

definition toCarIdKey :: "libs \<Rightarrow> cid \<Rightarrow> string" where
  "toCarIdKey L c = NewKey (cid_String L c)"

definition toPathKey :: "string \<Rightarrow> string" where
  "toPathKey path =
     (let pathHash = sha256_New_Sum path;
          encPathHash = EncodeToString pathHash
      in NewKey (carPathKeyPrefix @ encPathHash))"

text \<open>
  Modelled from the spec: the reader \<open>NewCidIteratorReadCloser\<close> builds over an
  iterator (the function is missing), read to its end as \<open>SumStream\<close> does: ``streaming
  every sub-identifier's hash through a single incremental hash accumulator''.  The
  bytes of the identifiers, each turned into bytes by \<open>marshal\<close>, in order; an error of
  the iterator other than the end of the sequence fails the read.
\<close>

fun read_all :: "(cid \<Rightarrow> bytes) \<Rightarrow> CidIterator \<Rightarrow> error + bytes" where
  "read_all marshal [] = Inr []"
| "read_all marshal ((c, e) # rs) =
     (if e = Some EOF then Inr []
      else case e of
        Some er \<Rightarrow> Inl er
      | None \<Rightarrow> (case read_all marshal rs of Inl er \<Rightarrow> Inl er | Inr bs \<Rightarrow> Inr (marshal c @ bs)))"

definition generateID :: "libs \<Rightarrow> string \<Rightarrow> error + cid" where
  "generateID L path =
     (case newCarCidIterator L path of
        Inl er \<Rightarrow> Inl er
      | Inr cri \<Rightarrow>
          (case read_all (cid_Hash L) cri of
             Inl er \<Rightarrow> Inl er
           | Inr stream \<Rightarrow>
               (case SumStream L stream of
                  Inl er \<Rightarrow> Inl er
                | Inr mh \<Rightarrow> Inr (NewCidV1 L DagCbor mh))))"

text \<open>
  Each operation returns its result, an error or an identifier (where the source
  returns \<open>cid.Undef\<close> with an error, the error alone), and the store after it.
\<close>

definition PutWithID :: "libs \<Rightarrow> Datastore \<Rightarrow> cid \<Rightarrow> string \<Rightarrow> (error + cid) \<times> Datastore" where
  "PutWithID L ds carId path0 =
     (let path = Clean path0;
          carIdKey = toCarIdKey L carId
      in case ds_Put ds carIdKey path of
           (Some er, ds1) \<Rightarrow> (Inl er, ds1)
         | (None, ds1) \<Rightarrow>
             (case ds_Put ds1 (toPathKey path) (Bytes carId) of
                (Some er, ds2) \<Rightarrow> (Inl er, ds2)
              | (None, ds2) \<Rightarrow> (Inr carId, ds2)))"

definition Put :: "libs \<Rightarrow> Datastore \<Rightarrow> string \<Rightarrow> (error + cid) \<times> Datastore" where
  "Put L ds path0 =
     (let path = Clean path0
      in case generateID L path of
           Inl er \<Rightarrow> (Inl er, ds)
         | Inr carId \<Rightarrow> PutWithID L ds carId path)"

definition getCarIDFromPathKey :: "libs \<Rightarrow> Datastore \<Rightarrow> string \<Rightarrow> error + cid" where
  "getCarIDFromPathKey L ds pathKey =
     (case ds_Get ds pathKey of
        Inl er \<Rightarrow> Inl er
      | Inr carIdBytes \<Rightarrow> CidFromBytes L carIdBytes)"

definition Remove :: "libs \<Rightarrow> Datastore \<Rightarrow> string \<Rightarrow> (error + cid) \<times> Datastore" where
  "Remove L ds path0 =
     (let path = Clean path0;
          pathKey = toPathKey path
      in case getCarIDFromPathKey L ds pathKey of
           Inl er \<Rightarrow> (Inl (if er = DsErrNotFound then ErrNotFound else er), ds)
         | Inr carId \<Rightarrow>
             (let carIdKey = toCarIdKey L carId
              in case ds_Delete ds carIdKey of
                   (Some er, ds1) \<Rightarrow> (Inl er, ds1)
                 | (None, ds1) \<Rightarrow>
                     (case ds_Delete ds1 pathKey of
                        (Some er, ds2) \<Rightarrow> (Inl er, ds2)
                      | (None, ds2) \<Rightarrow> (Inr carId, ds2))))"

definition Supply :: "libs \<Rightarrow> Datastore \<Rightarrow> cid \<Rightarrow> error + CidIterator" where
  "Supply L ds key =
     (case ds_Get ds (toCarIdKey L key) of
        Inl er \<Rightarrow> if er = DsErrNotFound then Inl ErrNotFound else Inl er
      | Inr b \<Rightarrow> newCarCidIterator L b)"

subsection \<open>Example inputs\<close>

text \<open>
  Stand-ins for the libraries, to run the model on: an identifier prints as \<open>b\<close>
  followed by its bytes, parses from any non-empty byte string, and is its own
  multihash; the multihash of a stream is the stream; and the only CAR file is the one
  at \<open>a/b\<close>, with two identifiers.
\<close>

definition toy_libs :: libs where
  "toy_libs =
     \<lparr>cid_String = (\<lambda>c. CHR ''b'' # c),
      CidFromBytes = (\<lambda>b. if b = [] then Inl (Err ''invalid cid'') else Inr b),
      cid_Hash = (\<lambda>c. c),
      SumStream = (\<lambda>s. Inr s),
      NewCidV1 = (\<lambda>codec mh. CHR ''q'' # mh),
      newCarCidIterator =
        (\<lambda>p. if p = ''a/b'' then Inr [(''x'', None), (''y'', None)]
             else Inl (Err ''no such file''))\<rparr>"

text \<open>
  The store after \<open>Put\<close> of the path \<open>a/b\<close> into an empty store, with these stand-ins:
  the forward record under the identifier's key and the reverse record under the
  path's key.
\<close>

definition store_a_b :: Datastore where
  "store_a_b =
     [''/bqxy'' \<mapsto> ''a/b'',
      ''/car:/YS9i47DEQpj8HBSa+/TImW+5JCeuQeRkm5NMpJWZG3hSuFU='' \<mapsto> ''qxy'']"

section \<open>Properties of the ingest verifier\<close>

lemma retain_IncludeAll: "retain R xs IncludeAll acc = (acc @ xs, IncludeAll)"
  by (induction xs arbitrary: acc) auto

lemma match_provider_cases:
  "match_provider provId ps r = (r', b) \<Longrightarrow>
     (b \<longrightarrow> r' = r\<lparr>present := present r + 1\<rparr>) \<and> (\<not> b \<longrightarrow> r' = r)"
  by (induction ps) (auto split: if_splits)

text \<open>
  The classification loop leaves \<open>total\<close> and \<open>err\<close> alone and adds one to
  exactly one of the three other counts per identifier.
\<close>

lemma classify_counts:
  "total (classify lk provId mhs r) = total r \<and>
   err (classify lk provId mhs r) = err r \<and>
   absent (classify lk provId mhs r) + providerMissmatch (classify lk provId mhs r)
     + present (classify lk provId mhs r)
     = absent r + providerMissmatch r + present r + int (length mhs)"
proof (induction mhs arbitrary: r)
  case Nil
  show ?case by simp
next
  case (Cons mh mhs)
  show ?case
  proof (cases "lk mh")
    case None
    then show ?thesis using Cons.IH [of "r\<lparr>absent := absent r + 1\<rparr>"] by simp
  next
    case (Some mr)
    show ?thesis
    proof (cases "length (ProviderResults mr) = 0")
      case True
      then show ?thesis using Some Cons.IH [of "r\<lparr>absent := absent r + 1\<rparr>"] by simp
    next
      case False
      obtain r' b where m: "match_provider provId (ProviderResults mr) r = (r', b)"
        by (cases "match_provider provId (ProviderResults mr) r")
      show ?thesis
      proof (cases b)
        case True
        then have "r' = r\<lparr>present := present r + 1\<rparr>" using match_provider_cases [OF m] by simp
        then show ?thesis using Some False m True Cons.IH [of r'] by simp
      next
        case nb: False
        then have "r' = r" using match_provider_cases [OF m] by simp
        then show ?thesis using Some False m nb
            Cons.IH [of "r\<lparr>providerMissmatch := providerMissmatch r + 1\<rparr>"] by simp
      qed
    qed
  qed
qed

lemma classify_nonneg:
  "0 \<le> absent r \<Longrightarrow> 0 \<le> providerMissmatch r \<Longrightarrow> 0 \<le> present r \<Longrightarrow>
   0 \<le> absent (classify lk provId mhs r) \<and> 0 \<le> providerMissmatch (classify lk provId mhs r)
     \<and> 0 \<le> present (classify lk provId mhs r)"
proof (induction mhs arbitrary: r)
  case Nil
  then show ?case by simp
next
  case (Cons mh mhs)
  show ?case
  proof (cases "lk mh")
    case None
    then show ?thesis using Cons.prems Cons.IH [of "r\<lparr>absent := absent r + 1\<rparr>"] by simp
  next
    case (Some mr)
    show ?thesis
    proof (cases "length (ProviderResults mr) = 0")
      case True
      then show ?thesis using Some Cons.prems Cons.IH [of "r\<lparr>absent := absent r + 1\<rparr>"] by simp
    next
      case False
      obtain r' b where m: "match_provider provId (ProviderResults mr) r = (r', b)"
        by (cases "match_provider provId (ProviderResults mr) r")
      show ?thesis
      proof (cases b)
        case True
        then have "r' = r\<lparr>present := present r + 1\<rparr>" using match_provider_cases [OF m] by simp
        then show ?thesis using Some False m True Cons.prems Cons.IH [of r'] by simp
      next
        case nb: False
        then have "r' = r" using match_provider_cases [OF m] by simp
        then show ?thesis using Some False m nb Cons.prems
            Cons.IH [of "r\<lparr>providerMissmatch := providerMissmatch r + 1\<rparr>"] by simp
      qed
    qed
  qed
qed

lemma verify_tally:
  assumes "verifyIngestFromCarIterableIndex R sel provId finder idx = Inr r"
  shows "err r + absent r + providerMissmatch r + present r = total r
       \<and> total r = int (length (retained R sel idx))
       \<and> 0 \<le> err r \<and> 0 \<le> absent r \<and> 0 \<le> providerMissmatch r \<and> 0 \<le> present r"
  using assms classify_counts [of "mhLookup_of (MultihashResults resp) Map.empty" provId
      "retained R sel idx" "result0\<lparr>total := int (length (retained R sel idx))\<rparr>" for resp]
    classify_nonneg [of "result0\<lparr>total := int (length (retained R sel idx))\<rparr>"
      "mhLookup_of (MultihashResults resp) Map.empty" provId "retained R sel idx" for resp]
  by (auto simp: verifyIngestFromCarIterableIndex_def retained_def result0_def Let_def
      split: option.splits sum.splits if_splits)

lemma verify_example_ab:
  "verifyIngestFromCarIterableIndex counter_rand IncludeAll ''P'' finder_ab three_entries
     = Inr \<lparr>total = 3, providerMissmatch = 1, present = 1, absent = 1, err = 0\<rparr>"
  by (simp add: verifyIngestFromCarIterableIndex_def three_entries_def finder_ab_def
      result0_def retain_IncludeAll)

lemma retained_three_entries:
  "retained counter_rand IncludeAll three_entries = [''mh-a'', ''mh-b'', ''mh-c'']"
  by (simp add: retained_def three_entries_def retain_IncludeAll)

text \<open>
  C4.  Whenever the verifier produces a result, \<open>passedVerification\<close> holds if and
  only if the count of identifiers present with the expected provider equals the
  number of retained identifiers (which is what \<open>total\<close> holds); a run that
  retains no identifier passes.
\<close>

theorem verdict_iff_present_eq_retained:
  assumes "verifyIngestFromCarIterableIndex R sel provId finder idx = Inr r"
  shows "total r = int (length (retained R sel idx))
       \<and> (passedVerification r \<longleftrightarrow> present r = int (length (retained R sel idx)))
       \<and> (retained R sel idx = [] \<longrightarrow> passedVerification r)"
  using verify_tally [OF assms] by (auto simp: passedVerification_def)

theorem verdict_iff_present_eq_retained_witness:
  "verifyIngestFromCarIterableIndex counter_rand IncludeAll ''P'' finder_ab three_entries
     = Inr \<lparr>total = 3, providerMissmatch = 1, present = 1, absent = 1, err = 0\<rparr>
   \<and> \<not> passedVerification \<lparr>total = 3, providerMissmatch = 1, present = 1, absent = 1, err = 0\<rparr>
   \<and> length (retained counter_rand IncludeAll three_entries) = 3"
  using verify_example_ab verdict_iff_present_eq_retained [OF verify_example_ab]
  by (simp add: retained_three_entries)

text \<open>
  C5.  When the index was read without error and the one batched lookup returns an
  error, the verifier returns a result, not an error: \<open>err\<close> and \<open>total\<close> are the
  number of retained identifiers, the three other counts are zero, and the command
  prints that tally.
\<close>

theorem lookup_error_charged_to_all:
  assumes "failure idx = None" and "finder (retained R sel idx) = Inl e"
  shows "verifyIngestFromCarIterableIndex R sel provId finder idx
           = Inr \<lparr>total = int (length (retained R sel idx)), providerMissmatch = 0,
                  present = 0, absent = 0, err = int (length (retained R sel idx))\<rparr>
       \<and> (\<exists>rep. doVerifyIngest R sel provId finder idx = Inr rep
             \<and> failed_to_verify rep = int (length (retained R sel idx))
             \<and> unindexed rep = 0 \<and> indexed_with_another rep = 0
             \<and> indexed_with_expected rep = 0
             \<and> total_checked rep = int (length (retained R sel idx)))"
  using assms
  by (simp add: verifyIngestFromCarIterableIndex_def doVerifyIngest_def printAndExit_def
      retained_def result0_def Let_def)

theorem lookup_error_charged_to_all_witness:
  "failure three_entries = None
   \<and> finder_down (retained counter_rand IncludeAll three_entries) = Inl (Err ''connection refused'')
   \<and> verifyIngestFromCarIterableIndex counter_rand IncludeAll ''P'' finder_down three_entries
       = Inr \<lparr>total = 3, providerMissmatch = 0, present = 0, absent = 0, err = 3\<rparr>"
proof -
  have f: "failure three_entries = None" by (simp add: three_entries_def)
  have d: "finder_down (retained counter_rand IncludeAll three_entries) = Inl (Err ''connection refused'')"
    by (simp add: finder_down_def)
  show ?thesis
    using f d lookup_error_charged_to_all [of three_entries finder_down counter_rand IncludeAll
        "Err ''connection refused''" "''P''"]
    by (simp add: retained_three_entries)
qed

text \<open>
  C6.  In every result of the verifier the four class counts (query failed, absent,
  provider mismatch, present) are non-negative and sum to \<open>total\<close>, the number of
  retained identifiers: each retained identifier is counted in exactly one class.
\<close>

theorem four_classes_sum_to_total:
  assumes "verifyIngestFromCarIterableIndex R sel provId finder idx = Inr r"
  shows "err r + absent r + providerMissmatch r + present r = int (length (retained R sel idx))
       \<and> total r = int (length (retained R sel idx))
       \<and> 0 \<le> err r \<and> 0 \<le> absent r \<and> 0 \<le> providerMissmatch r \<and> 0 \<le> present r"
  using verify_tally [OF assms] by simp

theorem four_classes_sum_to_total_witness:
  "verifyIngestFromCarIterableIndex counter_rand IncludeAll ''P'' finder_ab three_entries
     = Inr \<lparr>total = 3, providerMissmatch = 1, present = 1, absent = 1, err = 0\<rparr>
   \<and> (0::int) + 1 + 1 + 1 = int (length (retained counter_rand IncludeAll three_entries))"
  using verify_example_ab four_classes_sum_to_total [OF verify_example_ab]
  by simp

text \<open>
  C8 (as amended).  With sampling probability 1 every candidate is included.  With a
  sampling probability strictly between 0 and 1 and a fixed seed other than 0, the
  run samples, and the included subset is the same whatever the clock reads: two runs
  over the same entries in the same order include the same subset.
\<close>

theorem sampling_all_and_reproducible:
  "sampled_subset R 1 seed now idx = Inr (entries idx)
   \<and> (0 < p \<and> p < 1 \<and> seed \<noteq> 0 \<longrightarrow>
        (\<exists>mhs. sampled_subset R p seed now1 idx = Inr mhs
             \<and> sampled_subset R p seed now2 idx = Inr mhs))"
  by (simp add: sampled_subset_def beforeVerifyIngest_def retained_def retain_IncludeAll)

theorem sampling_all_and_reproducible_witness:
  "sampled_subset counter_rand 1 2 7 three_entries = Inr [''mh-a'', ''mh-b'', ''mh-c'']
   \<and> (0::rat) < 1/2 \<and> (1/2::rat) < 1 \<and> (2::int) \<noteq> 0
   \<and> sampled_subset counter_rand (1/2) 2 7 three_entries = Inr [''mh-a'', ''mh-c'']
   \<and> sampled_subset counter_rand (1/2) 2 8 three_entries = Inr [''mh-a'', ''mh-c'']"
proof -
  have a: "sampled_subset counter_rand (1/2) 2 7 three_entries = Inr [''mh-a'', ''mh-c'']"
    by (simp add: sampled_subset_def beforeVerifyIngest_def retained_def three_entries_def
        counter_rand_def)
  show ?thesis
    using a sampling_all_and_reproducible [of counter_rand 2 7 three_entries "1/2" 7 8]
    by (simp add: three_entries_def)
qed

text \<open>
  C8 as stated fails at the seed 0, which \<open>beforeVerifyIngest\<close> replaces by the
  clock: two runs with \<open>--rng-seed 0\<close> at the times 1 and 2 seed their generators with
  1 and 2 and include different subsets.
\<close>

theorem seed_zero_not_reproducible:
  "sampled_subset counter_rand (1/2) 0 1 three_entries
     \<noteq> sampled_subset counter_rand (1/2) 0 2 three_entries"
  by (simp add: sampled_subset_def beforeVerifyIngest_def retained_def three_entries_def
        counter_rand_def)

section \<open>Properties of the advertisement builder\<close>





lemmas builder_example_defs =
  test_publish_builder_def no_others_builder_def main_listed_builder_def
  main_info_supplied_def built_ids_def built_providers_def
  main_info_def sign_info_def toy_crypto_def ep1_def ep2_def supplied_ids_def
  NewAdBuilder_def WithExtendedProviders_def WithOverride_def WithContextID_def
  WithMetadata_def Let_def

text \<open>
  The model on the inputs of two tests.  With Override true and no extended provider
  (\<open>TestMainProviderShouldNotBeAddedAsExtendedIfThereAreNoOthers\<close>) the list is
  empty, as the test requires.  With Override true and two extended providers
  (\<open>TestPublish\<close>) the model builds the two supplied entries; the test requires a
  third entry, the main provider's own, which the build algorithm of the
  specification does not add under Override.
\<close>

lemma BuildAndSign_no_others:
  "map_sum id built_ids (BuildAndSign toy_crypto no_others_builder) = Inr []"
  by (simp add: BuildAndSign_def add_main_provider_def builder_example_defs)

lemma BuildAndSign_two_others:
  "map_sum id built_ids (BuildAndSign toy_crypto test_publish_builder)
     = Inr [''peer-1'', ''peer-2'']"
  by (simp add: BuildAndSign_def add_main_provider_def builder_example_defs)

lemma BuildAndSign_main_listed:
  "map_sum id (\<lambda>ad. map (\<lambda>p. (ID_p p, Addresses_p p, Metadata_p p)) (built_providers ad))
     (BuildAndSign toy_crypto main_listed_builder)
   = Inr [(''peer-main'', [''/ip4/7.7.7.7/tcp/7''], ''own-meta''),
          (''peer-1'', [''/ip4/1.1.1.1/tcp/1''], ''thisismeta'')]"
  by (simp add: BuildAndSign_def add_main_provider_def builder_example_defs)



section \<open>Properties of the streaming adapter\<close>

text \<open>The worker's loop, one call of \<open>Next\<close> per round.\<close>

lemma toChan_worker_Next:
  "toChan_worker ci =
     (case Next ci of
        ((c, e), ci') \<Rightarrow>
          if e = Some EOF then [CloseCid, CloseErr]
          else (case e of Some er \<Rightarrow> [SendErr er] | None \<Rightarrow> []) @ SendCid c # toChan_worker ci')"
  by (cases ci) auto

text \<open>
  C2.  On the iterator \<open>failing_iterator\<close> the worker forwards the error of the
  first \<open>Next\<close> and then goes on: it sends the value that came with the error, calls
  \<open>Next\<close> again and sends the next value, and closes the channels only at the end of
  the sequence.  With nobody receiving, the error and the value that came with it are
  both delivered into the buffers, and the worker then waits in the send of the next
  value, both channels open.  The claim says that the closes follow the error and
  that no value is sent after it.
\<close>

theorem toChan_sends_after_error:
  "toChan_worker failing_iterator =
     [SendErr (Err ''unexpected EOF''), SendCid Undef, SendCid ''cid-1'', CloseCid, CloseErr]
   \<and> toChan_unattended failing_iterator (make_chan 1) (make_chan 1) =
       (\<lparr>cap = 1, buf = [Undef], closed = False\<rparr>,
        \<lparr>cap = 1, buf = [Err ''unexpected EOF''], closed = False\<rparr>, False)"
  by (simp add: failing_iterator_def make_chan_def chan_send_def)

text \<open>
  C10.  When \<open>Supply\<close> fails, the callback returns: the value channel is \<open>nil\<close>, so
  a receive on it blocks forever; the error channel has capacity 1, is closed and
  holds the supply error and nothing else, so a receiver gets that error and then
  finds the channel closed and drained; no goroutine was started.
\<close>

theorem ToCidCallback_supply_error:
  assumes "cidIterSup key = Inl er"
  shows "\<exists>r. ToCidCallback cidIterSup key = Some r
           \<and> cidChan r = None
           \<and> chan_recv (cidChan r) = BlocksForever
           \<and> errChan r = Some \<lparr>cap = 1, buf = [er], closed = True\<rparr>
           \<and> chan_recv (errChan r) = Received er \<lparr>cap = 1, buf = [], closed = True\<rparr>
           \<and> goroutine r = None"
  using assms by (simp add: ToCidCallback_def make_chan_def chan_send_def chan_close_def)

theorem ToCidCallback_supply_error_witness:
  "empty_supplier ''cid-9'' = Inl ErrNotFound
   \<and> ToCidCallback empty_supplier ''cid-9'' =
       Some \<lparr>cidChan = None,
             errChan = Some \<lparr>cap = 1, buf = [ErrNotFound], closed = True\<rparr>,
             goroutine = None\<rparr>"
proof -
  have h: "empty_supplier ''cid-9'' = Inl ErrNotFound" by (simp add: empty_supplier_def)
  show ?thesis
    using h ToCidCallback_supply_error [of empty_supplier "''cid-9''" ErrNotFound]
    by auto
qed

section \<open>Properties of the CAR supplier\<close>

subsection \<open>Cleaning a path is idempotent\<close>

lemma all_dotdot_ok: "\<not> rooted \<Longrightarrow> \<forall>x\<in>set ts. x = ''..'' \<Longrightarrow> stack_ok rooted ts"
  by (induction ts) auto

lemma stack_ok_tl: "stack_ok rooted (t # ts) \<Longrightarrow> stack_ok rooted ts"
  by (cases "t = ''..''") (simp_all add: all_dotdot_ok)

lemma clean_step_skip: "e = [] \<or> e = ''.'' \<Longrightarrow> clean_step rooted out e = out"
  by simp

lemma clean_step_real: "real_elem e \<Longrightarrow> clean_step rooted out e = e # out"
  unfolding real_elem_def by simp

lemma clean_step_dotdot:
  "clean_step rooted out ''..'' =
     (case out of
        [] \<Rightarrow> if rooted then [] else [''..'']
      | t # ts \<Rightarrow> if t = ''..'' then (if rooted then out else ''..'' # out) else ts)"
  by simp

declare clean_step.simps [simp del]

lemma elem_cases:
  "CHR ''/'' \<notin> set e \<Longrightarrow> e = [] \<or> e = ''.'' \<or> e = ''..'' \<or> real_elem e"
  unfolding real_elem_def by blast

lemma clean_step_ok:
  assumes "stack_ok rooted out" and "CHR ''/'' \<notin> set e"
  shows "stack_ok rooted (clean_step rooted out e)"
proof -
  consider "e = [] \<or> e = ''.''" | "e = ''..''" | "real_elem e"
    using elem_cases [OF assms(2)] by blast
  then show ?thesis
  proof cases
    case 1
    then show ?thesis using assms(1) clean_step_skip by simp
  next
    case 2
    show ?thesis
    proof (cases out)
      case Nil
      have "clean_step rooted [] ''..'' = (if rooted then [] else [''..''])"
        unfolding clean_step_dotdot by simp
      then show ?thesis unfolding 2 Nil by simp
    next
      case (Cons t ts)
      show ?thesis
      proof (cases "t = ''..''")
        case True
        then have nr: "\<not> rooted" and dd: "\<forall>x\<in>set ts. x = ''..''"
          using assms(1) Cons by simp_all
        have "clean_step rooted out ''..'' = ''..'' # out"
          unfolding clean_step_dotdot using Cons True nr by simp
        moreover have "stack_ok rooted (''..'' # out)"
          using nr dd Cons True by simp
        ultimately show ?thesis unfolding 2 by simp
      next
        case False
        then have "clean_step rooted out ''..'' = ts"
          unfolding clean_step_dotdot using Cons by simp
        moreover have "stack_ok rooted ts"
          using stack_ok_tl [of rooted t ts] assms(1) Cons by simp
        ultimately show ?thesis unfolding 2 by simp
      qed
    qed
  next
    case 3
    have ne: "e \<noteq> ''..''" using 3 unfolding real_elem_def by blast
    have "clean_step rooted out e = e # out" using 3 by (rule clean_step_real)
    moreover have "stack_ok rooted (e # out)"
      unfolding stack_ok.simps using assms(1) 3 ne by simp
    ultimately show ?thesis by simp
  qed
qed

lemma foldl_clean_step_ok:
  "stack_ok rooted out \<Longrightarrow> \<forall>e\<in>set es. CHR ''/'' \<notin> set e \<Longrightarrow>
   stack_ok rooted (foldl (clean_step rooted) out es)"
  by (induction es arbitrary: out) (simp_all add: clean_step_ok)

lemma dotdot_no_slash: "CHR ''/'' \<notin> set ''..'' \<and> ''..'' \<noteq> []"
  by simp

lemma stack_ok_elem:
  "stack_ok rooted st \<Longrightarrow> e \<in> set st \<Longrightarrow> e \<noteq> [] \<and> CHR ''/'' \<notin> set e"
proof (induction st)
  case Nil
  then show ?case by simp
next
  case (Cons t ts)
  show ?case
  proof (cases "t = ''..''")
    case True
    then have "e = ''..''" using Cons.prems by auto
    then show ?thesis using dotdot_no_slash by simp
  next
    case False
    then have rt: "real_elem t" and ok: "stack_ok rooted ts" using Cons.prems(1) by simp_all
    show ?thesis
    proof (cases "e = t")
      case True
      then show ?thesis using rt unfolding real_elem_def by blast
    next
      case False
      then have "e \<in> set ts" using Cons.prems(2) by simp
      then show ?thesis using Cons.IH [OF ok] by blast
    qed
  qed
qed

lemma replay: "stack_ok rooted st \<Longrightarrow> foldl (clean_step rooted) [] (rev st) = st"
proof (induction st)
  case Nil
  show ?case by simp
next
  case (Cons t ts)
  have ok: "stack_ok rooted ts" using stack_ok_tl [of rooted t ts] Cons.prems by simp
  have fold: "foldl (clean_step rooted) [] (rev (t # ts)) = clean_step rooted ts t"
    using Cons.IH [OF ok] by simp
  have "clean_step rooted ts t = t # ts"
  proof (cases "t = ''..''")
    case True
    then have nr: "\<not> rooted" and dd: "\<forall>x\<in>set ts. x = ''..''"
      using Cons.prems by simp_all
    show ?thesis
    proof (cases ts)
      case Nil
      then show ?thesis unfolding True clean_step_dotdot using nr by simp
    next
      case (Cons u us)
      then have "u = ''..''" using dd by simp
      then show ?thesis unfolding True clean_step_dotdot using nr Cons by simp
    qed
  next
    case False
    then have "real_elem t" using Cons.prems by simp
    then show ?thesis by (rule clean_step_real)
  qed
  then show ?case using fold by simp
qed

lemma split_slash_no_slash: "e \<in> set (split_slash p) \<Longrightarrow> CHR ''/'' \<notin> set e"
  by (induction p arbitrary: e) (auto split: list.splits if_splits)

lemma split_slash_word: "CHR ''/'' \<notin> set e \<Longrightarrow> split_slash e = [e]"
  by (induction e) (auto split: list.splits)

lemma split_slash_append:
  "CHR ''/'' \<notin> set e \<Longrightarrow> split_slash (e @ CHR ''/'' # rest) = e # split_slash rest"
  by (induction e) (auto split: list.splits)

lemma split_join:
  "es \<noteq> [] \<Longrightarrow> \<forall>e\<in>set es. CHR ''/'' \<notin> set e \<Longrightarrow> split_slash (join_slash es) = es"
proof (induction es rule: join_slash.induct)
  case 1
  then show ?case by simp
next
  case (2 e)
  then show ?case by (simp add: split_slash_word)
next
  case (3 e v va)
  have "split_slash (join_slash (v # va)) = v # va" using 3 by simp
  moreover have "CHR ''/'' \<notin> set e" using 3 by simp
  ultimately show ?case by (simp add: split_slash_append)
qed

lemma join_slash_hd:
  "es \<noteq> [] \<Longrightarrow> hd es \<noteq> [] \<Longrightarrow> join_slash es \<noteq> [] \<and> hd (join_slash es) = hd (hd es)"
  by (induction es rule: join_slash.induct) auto

lemma Clean_dot: "Clean ''.'' = ''.''"
  by (simp add: Clean_def clean_step.simps)

lemma join_slash_Nil_iff:
  "\<forall>e\<in>set es. e \<noteq> [] \<Longrightarrow> join_slash es = [] \<longleftrightarrow> es = []"
  by (induction es rule: join_slash.induct) auto

lemma Clean_rooted_of_stack:
  assumes "stack_ok True st"
  shows "Clean (CHR ''/'' # join_slash (rev st)) = CHR ''/'' # join_slash (rev st)"
proof -
  let ?es = "rev st"
  have el: "\<forall>e\<in>set ?es. e \<noteq> [] \<and> CHR ''/'' \<notin> set e"
    using stack_ok_elem [OF assms] by simp
  have "foldl (clean_step True) [] (split_slash (CHR ''/'' # join_slash ?es)) = st"
  proof (cases "?es = []")
    case True
    then have "st = []" by simp
    then show ?thesis by (simp add: clean_step.simps)
  next
    case False
    then have "split_slash (join_slash ?es) = ?es" using el split_join by blast
    then have "foldl (clean_step True) [] (split_slash (CHR ''/'' # join_slash ?es))
                 = foldl (clean_step True) (clean_step True [] []) ?es" by simp
    also have "\<dots> = foldl (clean_step True) [] ?es" by (simp add: clean_step_skip)
    also have "\<dots> = st" using replay [OF assms] .
    finally show ?thesis .
  qed
  then show ?thesis by (simp add: Clean_def)
qed

lemma Clean_relative_of_stack:
  assumes "stack_ok False st" and "st \<noteq> []"
  shows "Clean (join_slash (rev st)) = join_slash (rev st)"
proof -
  let ?es = "rev st"
  have ne: "?es \<noteq> []" using assms(2) by simp
  have el: "\<forall>e\<in>set ?es. e \<noteq> [] \<and> CHR ''/'' \<notin> set e"
    using stack_ok_elem [OF assms(1)] by simp
  have hd_in: "hd ?es \<in> set ?es" using ne by (rule hd_in_set)
  have hne: "hd ?es \<noteq> []" and hns: "CHR ''/'' \<notin> set (hd ?es)" using el hd_in by blast+
  have q: "join_slash ?es \<noteq> []" and hq: "hd (join_slash ?es) = hd (hd ?es)"
    using join_slash_hd [OF ne hne] by simp_all
  have "hd (hd ?es) \<in> set (hd ?es)" using hne by (rule hd_in_set)
  then have nroot: "hd (join_slash ?es) \<noteq> CHR ''/''" using hns hq by metis
  have "split_slash (join_slash ?es) = ?es" using ne el split_join by blast
  then have "foldl (clean_step False) [] (split_slash (join_slash ?es)) = st"
    using replay [OF assms(1)] by simp
  then show ?thesis using q nroot by (simp add: Clean_def)
qed

lemma Clean_idem: "Clean (Clean p) = Clean p"
proof (cases "p = []")
  case True
  then have "Clean p = ''.''" by (simp add: Clean_def)
  then show ?thesis by (simp add: Clean_dot)
next
  case False
  define rooted where "rooted = (hd p = CHR ''/'')"
  define st where "st = foldl (clean_step rooted) [] (split_slash p)"
  have ok: "stack_ok rooted st"
    unfolding st_def using split_slash_no_slash
    by (intro foldl_clean_step_ok) auto
  have el: "\<forall>e\<in>set (rev st). e \<noteq> []" using stack_ok_elem [OF ok] by simp
  show ?thesis
  proof (cases rooted)
    case True
    then have "Clean p = CHR ''/'' # join_slash (rev st)"
      using False by (simp add: Clean_def rooted_def st_def)
    then show ?thesis using Clean_rooted_of_stack ok True by simp
  next
    case nr: False
    show ?thesis
    proof (cases "st = []")
      case True
      then have "Clean p = ''.''" using False nr by (simp add: Clean_def rooted_def st_def)
      then show ?thesis by (simp add: Clean_dot)
    next
      case ne: False
      then have "join_slash (rev st) \<noteq> []" using join_slash_Nil_iff [OF el] by simp
      then have "Clean p = join_slash (rev st)"
        using False nr by (simp add: Clean_def rooted_def st_def)
      then show ?thesis using Clean_relative_of_stack ok nr ne by simp
    qed
  qed
qed

subsection \<open>Keys and records\<close>

lemmas key_defs = toPathKey_def sha256_New_Sum_def sha256_empty_def NewKey_def Clean_def
  carPathKeyPrefix_def b64_char_def b64_alphabet_def clean_step.simps

lemma toPathKey_a: "toPathKey ''a'' = ''/car:/YeOwxEKY/BwUmvv0yJlvuSQnrkHkZJuTTKSVmRt4UrhV''"
  by (simp add: key_defs)

lemma toPathKey_a_b: "toPathKey ''a/b'' = ''/car:/YS9i47DEQpj8HBSa+/TImW+5JCeuQeRkm5NMpJWZG3hSuFU=''"
  by (simp add: key_defs)

lemma toPathKey_abcdefgh:
  "toPathKey ''abcdefgh'' = ''/car:/YWJjZGVmZ2jjsMRCmPwcFJr79MiZb7kkJ65B5GSbk0yklZkbeFK4VQ==''"
  by (simp add: key_defs)

lemma length_EncodeToString: "length (EncodeToString b) = 4 * ((length b + 2) div 3)"
proof (induction b rule: EncodeToString.induct)
  case (4 a b c rest)
  have "(length rest + 5) div 3 = Suc ((length rest + 2) div 3)" by presburger
  then show ?case using 4 by (simp add: Let_def add.commute)
qed (simp_all add: Let_def)

lemma encoded_path_hash_length:
  "length (EncodeToString (sha256_New_Sum path)) = 4 * ((length path + 34) div 3)"
  by (simp add: length_EncodeToString sha256_New_Sum_def sha256_empty_def)

text \<open>
  C3.  The key \<open>toPathKey\<close> computes is not built from a digest of the path:
  \<open>sha256.New().Sum([]byte(path))\<close> is the path itself followed by the digest of the
  empty message, so what is encoded grows with the path.  The keys of the paths \<open>a\<close>
  and \<open>abcdefgh\<close> have the lengths 50 and 62, and both spell the path out in base64.
\<close>

theorem toPathKey_length_depends_on_path:
  "sha256_New_Sum ''abcdefgh'' = ''abcdefgh'' @ sha256_empty
   \<and> toPathKey ''a'' = ''/car:/YeOwxEKY/BwUmvv0yJlvuSQnrkHkZJuTTKSVmRt4UrhV''
   \<and> toPathKey ''abcdefgh'' = ''/car:/YWJjZGVmZ2jjsMRCmPwcFJr79MiZb7kkJ65B5GSbk0yklZkbeFK4VQ==''
   \<and> length (toPathKey ''a'') = 50
   \<and> length (toPathKey ''abcdefgh'') = 62"
  by (simp add: toPathKey_a toPathKey_abcdefgh sha256_New_Sum_def)

lemma PutWithID_result:
  "PutWithID L ds c p =
     (Inr c, ds(toCarIdKey L c \<mapsto> Clean p, toPathKey (Clean p) \<mapsto> Bytes c))"
  by (simp add: PutWithID_def ds_Put_def Let_def)

lemma Put_result:
  assumes "Put L ds p = (Inr c, ds1)"
  shows "generateID L (Clean p) = Inr c
       \<and> ds1 = ds(toCarIdKey L c \<mapsto> Clean p, toPathKey (Clean p) \<mapsto> Bytes c)"
  using assms by (auto simp: Put_def PutWithID_result Clean_idem Let_def split: sum.splits)

lemma Remove_after_store:
  assumes ds1: "ds1 = ds(toCarIdKey L c \<mapsto> v, toPathKey (Clean p) \<mapsto> Bytes c)"
    and rm: "Remove L ds1 p = (Inr removed, ds2)"
    and rt: "\<forall>c'. CidFromBytes L (Bytes c) = Inr c' \<longrightarrow> c' = c"
  shows "removed = c \<and> ds2 = ds1(toCarIdKey L c := None, toPathKey (Clean p) := None)"
proof -
  have get: "ds_Get ds1 (toPathKey (Clean p)) = Inr (Bytes c)"
    by (simp add: ds1 ds_Get_def)
  obtain c' where parse: "CidFromBytes L (Bytes c) = Inr c'"
    using rm get by (cases "CidFromBytes L (Bytes c)")
      (auto simp: Remove_def getCarIDFromPathKey_def Let_def)
  then have eq: "c' = c" using rt by blast
  show ?thesis using rm get parse eq
    by (auto simp: Remove_def getCarIDFromPathKey_def ds_Delete_def Let_def)
qed

text \<open>The model run on the stand-in libraries.\<close>

lemma Clean_examples:
  "Clean ''a/b'' = ''a/b''" "Clean ''a//b'' = ''a/b''" "Clean ''/bqxy'' = ''/bqxy''"
  by (simp_all add: Clean_def clean_step.simps)

lemma toy_libs_simps:
  "cid_String toy_libs c = CHR ''b'' # c"
  "CidFromBytes toy_libs b = (if b = [] then Inl (Err ''invalid cid'') else Inr b)"
  "newCarCidIterator toy_libs p =
     (if p = ''a/b'' then Inr [(''x'', None), (''y'', None)] else Inl (Err ''no such file''))"
  by (simp_all add: toy_libs_def)

lemma generateID_a_b: "generateID toy_libs ''a/b'' = Inr ''qxy''"
  by (simp add: generateID_def toy_libs_def)

lemma toCarIdKey_qxy: "toCarIdKey toy_libs ''qxy'' = ''/bqxy''"
  by (simp add: toCarIdKey_def toy_libs_simps NewKey_def Clean_examples)

lemma Put_a_b: "Clean p = ''a/b'' \<Longrightarrow> Put toy_libs Map.empty p = (Inr ''qxy'', store_a_b)"
  by (simp add: Put_def generateID_a_b PutWithID_result Clean_examples toCarIdKey_qxy
      toPathKey_a_b store_a_b_def Bytes_def)

lemma Remove_a_b:
  "Clean p = ''a/b'' \<Longrightarrow>
   Remove toy_libs store_a_b p =
     (Inr ''qxy'',
      store_a_b(''/bqxy'' := None,
                ''/car:/YS9i47DEQpj8HBSa+/TImW+5JCeuQeRkm5NMpJWZG3hSuFU='' := None))"
  by (simp add: Remove_def getCarIDFromPathKey_def ds_Get_def ds_Delete_def toPathKey_a_b
      toy_libs_simps toCarIdKey_qxy store_a_b_def Bytes_def)

text \<open>
  C7.  After a successful \<open>Put\<close> or \<open>PutWithID\<close> of a path, directly followed by a
  successful \<open>Remove\<close> of the same path, \<open>Remove\<close> returns the identifier that was
  put and \<open>Supply\<close> of it fails with \<open>ErrNotFound\<close>.  The hypothesis on
  \<open>CidFromBytes\<close> is go-cid's: parsing the bytes of an identifier gives that
  identifier back.
\<close>

theorem remove_then_supply_not_found:
  assumes put: "Put L ds path = (Inr carId, ds1) \<or> PutWithID L ds carId0 path = (Inr carId, ds1)"
    and rt: "\<forall>c'. CidFromBytes L (Bytes carId) = Inr c' \<longrightarrow> c' = carId"
    and rm: "Remove L ds1 path = (Inr removed, ds2)"
  shows "removed = carId \<and> Supply L ds2 carId = Inl ErrNotFound"
proof -
  have "ds1 = ds(toCarIdKey L carId \<mapsto> Clean path, toPathKey (Clean path) \<mapsto> Bytes carId)"
    using put Put_result [of L ds path carId ds1] by (auto simp: PutWithID_result)
  then have r: "removed = carId
      \<and> ds2 = ds1(toCarIdKey L carId := None, toPathKey (Clean path) := None)"
    using Remove_after_store rm rt by blast
  then have "ds2 (toCarIdKey L carId) = None" by simp
  then show ?thesis using r by (simp add: Supply_def ds_Get_def)
qed

theorem remove_then_supply_not_found_witness:
  "Put toy_libs Map.empty ''a/b'' = (Inr ''qxy'', store_a_b)
   \<and> fst (Remove toy_libs store_a_b ''a/b'') = Inr ''qxy''
   \<and> Supply toy_libs (snd (Remove toy_libs store_a_b ''a/b'')) ''qxy'' = Inl ErrNotFound"
proof -
  have put: "Put toy_libs Map.empty ''a/b'' = (Inr ''qxy'', store_a_b)"
    by (rule Put_a_b) (rule Clean_examples(1))
  have rt: "\<forall>c'. CidFromBytes toy_libs (Bytes ''qxy'') = Inr c' \<longrightarrow> c' = ''qxy''"
    by (simp add: toy_libs_simps Bytes_def)
  have rm: "Remove toy_libs store_a_b ''a/b''
              = (Inr ''qxy'', snd (Remove toy_libs store_a_b ''a/b''))"
    by (simp add: Remove_a_b [OF Clean_examples(1)])
  have "Supply toy_libs (snd (Remove toy_libs store_a_b ''a/b'')) ''qxy'' = Inl ErrNotFound"
    using remove_then_supply_not_found [of toy_libs Map.empty "''a/b''" "''qxy''" store_a_b
        "''qxy''" "''qxy''" "snd (Remove toy_libs store_a_b ''a/b'')"] put rt rm
    by blast
  then show ?thesis using put rm by (metis fst_conv)
qed

text \<open>
  C9.  \<open>Put\<close>, \<open>PutWithID\<close> and \<open>Remove\<close> use their path argument only through
  \<open>Clean\<close>: on two paths that clean to the same string each of them returns the same
  result and leaves the same store, and each does on the cleaned path what it does on
  the path.  So the record \<open>Put\<close> creates for one path is the record \<open>Remove\<close> of
  the other removes, both its forward and its reverse entry.
\<close>

theorem operations_address_cleaned_path:
  assumes "Clean p = Clean q"
  shows "Put L ds p = Put L ds q
       \<and> PutWithID L ds c p = PutWithID L ds c q
       \<and> Remove L ds p = Remove L ds q
       \<and> Put L ds (Clean p) = Put L ds p
       \<and> PutWithID L ds c (Clean p) = PutWithID L ds c p
       \<and> Remove L ds (Clean p) = Remove L ds p
       \<and> (\<forall>c' ds1. Put L ds p = (Inr c', ds1) \<and> CidFromBytes L (Bytes c') = Inr c' \<longrightarrow>
            (\<exists>ds2. Remove L ds1 q = (Inr c', ds2)
                 \<and> ds2 (toCarIdKey L c') = None \<and> ds2 (toPathKey (Clean p)) = None))"
proof -
  have same: "Put L ds p = Put L ds q" "PutWithID L ds c p = PutWithID L ds c q"
    "Remove L ds p = Remove L ds q"
    using assms by (simp_all add: Put_def PutWithID_def Remove_def)
  have idem: "Put L ds (Clean p) = Put L ds p" "PutWithID L ds c (Clean p) = PutWithID L ds c p"
    "Remove L ds (Clean p) = Remove L ds p"
    by (simp_all add: Put_def PutWithID_def Remove_def Clean_idem)
  have rec: "\<exists>ds2. Remove L ds1 q = (Inr c', ds2)
                 \<and> ds2 (toCarIdKey L c') = None \<and> ds2 (toPathKey (Clean p)) = None"
    if put: "Put L ds p = (Inr c', ds1)" and parse: "CidFromBytes L (Bytes c') = Inr c'"
    for c' ds1
  proof -
    have ds1: "ds1 = ds(toCarIdKey L c' \<mapsto> Clean p, toPathKey (Clean p) \<mapsto> Bytes c')"
      using Put_result [OF put] by simp
    have "Remove L ds1 q
            = (Inr c', ds1(toCarIdKey L c' := None, toPathKey (Clean p) := None))"
      using assms [symmetric] parse
      by (simp add: ds1 Remove_def getCarIDFromPathKey_def ds_Get_def ds_Delete_def Let_def)
    then show ?thesis by simp
  qed
  show ?thesis using same idem rec by blast
qed

theorem operations_address_cleaned_path_witness:
  "Clean ''a//b'' = Clean ''a/b''
   \<and> Put toy_libs Map.empty ''a/b'' = (Inr ''qxy'', store_a_b)
   \<and> Put toy_libs Map.empty ''a//b'' = (Inr ''qxy'', store_a_b)
   \<and> fst (Remove toy_libs store_a_b ''a//b'') = Inr ''qxy''
   \<and> snd (Remove toy_libs store_a_b ''a//b'') ''/bqxy'' = None
   \<and> snd (Remove toy_libs store_a_b ''a//b'')
        ''/car:/YS9i47DEQpj8HBSa+/TImW+5JCeuQeRkm5NMpJWZG3hSuFU='' = None"
proof -
  have c: "Clean ''a//b'' = Clean ''a/b''" by (simp add: Clean_examples)
  have p1: "Put toy_libs Map.empty ''a/b'' = (Inr ''qxy'', store_a_b)"
    by (rule Put_a_b) (rule Clean_examples(1))
  have p2: "Put toy_libs Map.empty ''a//b'' = Put toy_libs Map.empty ''a/b''"
    using operations_address_cleaned_path [OF c, of toy_libs Map.empty "''qxy''"] by blast
  have r: "Remove toy_libs store_a_b ''a//b'' =
     (Inr ''qxy'',
      store_a_b(''/bqxy'' := None,
                ''/car:/YS9i47DEQpj8HBSa+/TImW+5JCeuQeRkm5NMpJWZG3hSuFU='' := None))"
    by (rule Remove_a_b) (rule Clean_examples(2))
  show ?thesis unfolding r using c p1 p2 by simp
qed

end
